theory Spec2Isabelle
  imports Complex_Main
begin

section \<open>JavaScript values\<close>

text \<open>
  The wrapper of \<^verbatim>\<open>src/CloudflareKVCache.js\<close> inspects its options with
  \<^verbatim>\<open>typeof\<close>, truthiness (\<^verbatim>\<open>||\<close>, \<^verbatim>\<open>&&\<close>), \<^verbatim>\<open>Number.isFinite\<close> and
  \<^verbatim>\<open>>=\<close>, so option values are modelled as untyped JavaScript values. A finite
  double is a rational number, so finite numbers are embedded in \<^typ>\<open>rat\<close>
  (negative zero is not distinguished from zero); the three non-finite doubles are
  separate constructors. A function object is a reference \<open>JFun f\<close> into the table
  of user functions of the host (below).
\<close>

datatype jsnum = Finite rat | NaN | PosInf | NegInf

datatype jsval =
    Undefined
  | Null
  | JBool bool
  | JNum jsnum
  | JStr string
  | JArr "jsval list"
  | JObj "(string \<times> jsval) list"
  | JFun nat

text \<open>What a \<^verbatim>\<open>throw\<close> carries: the \<^verbatim>\<open>TypeError\<close> of \<^verbatim>\<open>assert\<close>, or any
  value thrown by user code or by the store.\<close>

datatype error = TypeError string | Thrown jsval

fun typeof :: "jsval \<Rightarrow> string" where
  "typeof Undefined = ''undefined''"
| "typeof Null = ''object''"
| "typeof (JBool b) = ''boolean''"
| "typeof (JNum n) = ''number''"
| "typeof (JStr s) = ''string''"
| "typeof (JArr xs) = ''object''"
| "typeof (JObj kvs) = ''object''"
| "typeof (JFun f) = ''function''"

text \<open>ToBoolean: \<^verbatim>\<open>undefined\<close>, \<^verbatim>\<open>null\<close>, \<^verbatim>\<open>false\<close>, \<^verbatim>\<open>0\<close>, \<^verbatim>\<open>NaN\<close> and
  \<^verbatim>\<open>''\<close> are falsy, everything else is truthy.\<close>

fun truthy :: "jsval \<Rightarrow> bool" where
  "truthy Undefined = False"
| "truthy Null = False"
| "truthy (JBool b) = b"
| "truthy (JNum (Finite q)) = (q \<noteq> 0)"
| "truthy (JNum NaN) = False"
| "truthy (JNum PosInf) = True"
| "truthy (JNum NegInf) = True"
| "truthy (JStr s) = (s \<noteq> [])"
| "truthy (JArr xs) = True"
| "truthy (JObj kvs) = True"
| "truthy (JFun f) = True"

text \<open>\<^verbatim>\<open>a || b\<close>.\<close>

definition js_or :: "jsval \<Rightarrow> jsval \<Rightarrow> jsval" where
  "js_or a b = (if truthy a then a else b)"

text \<open>\<^verbatim>\<open>Number.isFinite(v)\<close>: no coercion, true only of a finite number.\<close>

fun Number_isFinite :: "jsval \<Rightarrow> bool" where
  "Number_isFinite (JNum (Finite q)) = True"
| "Number_isFinite v = False"

text \<open>\<^verbatim>\<open>v >= 60\<close> on a number (the source reaches the comparison only behind
  \<^verbatim>\<open>Number.isFinite(v) &&\<close>, so no coercion of other types is modelled).\<close>

fun js_ge :: "jsval \<Rightarrow> rat \<Rightarrow> bool" where
  "js_ge (JNum (Finite q)) r = (r \<le> q)"
| "js_ge (JNum PosInf) r = True"
| "js_ge v r = False"

text \<open>\<^verbatim>\<open>Math.floor(v)\<close> on a number.\<close>

fun Math_floor :: "jsval \<Rightarrow> jsnum" where
  "Math_floor (JNum (Finite q)) = Finite (of_int \<lfloor>q\<rfloor>)"
| "Math_floor (JNum n) = n"
| "Math_floor v = NaN"

text \<open>\<^verbatim>\<open>function assert (condition, message) { if (!condition) throw new TypeError(message) }\<close>\<close>

definition assert :: "bool \<Rightarrow> string \<Rightarrow> error + unit" where
  "assert condition message = (if \<not> condition then Inl (TypeError message) else Inr ())"

section \<open>Options objects\<close>

text \<open>
  An options object is a finite map from property names to values; reading a
  property that is not there gives \<^verbatim>\<open>undefined\<close>.
  \<^verbatim>\<open>Object.assign({}, options, fnOptions)\<close> copies every own property of
  \<open>options\<close> and then of \<open>fnOptions\<close>, the later one winning (also when its value
  is \<^verbatim>\<open>undefined\<close>).
\<close>

type_synonym options = "string \<rightharpoonup> jsval"

definition get_prop :: "options \<Rightarrow> string \<Rightarrow> jsval" where
  "get_prop opts name = (case opts name of None \<Rightarrow> Undefined | Some v \<Rightarrow> v)"

definition Object_assign :: "options \<Rightarrow> options \<Rightarrow> options" where
  "Object_assign options fnOptions = Map.empty ++ options ++ fnOptions"

section \<open>The store\<close>

text \<open>
  The store is an external collaborator. Its model follows the test double
  \<^verbatim>\<open>createFakeKV\<close> of the repository's test suite: a map from keys to text with a log
  of the calls received, extended by the failures the tests inject
  (\<^verbatim>\<open>KV.get = jest.fn(async () => { throw new Error('boom') })\<close>): each operation may be
  set to throw at a key. Expiry is not modelled: an entry that is in \<open>data\<close> is fresh.
\<close>

record store =
  data :: "string \<rightharpoonup> string"
  getCalls :: "string list"
  putCalls :: "(string \<times> string option \<times> jsnum) list"
  deleteCalls :: "string list"
  get_throws :: "string \<Rightarrow> error option"
  put_throws :: "string \<Rightarrow> error option"
  delete_throws :: "string \<Rightarrow> error option"

text \<open>
  What \<^verbatim>\<open>env[binding]\<close> may hold: nothing (\<open>None\<close>), or an object of which the wrapper
  checks three capabilities; \<open>ns\<close> names the namespace the object gives access to.
\<close>

record kvobj =
  has_get :: bool
  has_put :: bool
  has_delete :: bool
  ns :: nat

type_synonym kv_world = "nat \<Rightarrow> store"

definition kv_get :: "kvobj \<Rightarrow> string \<Rightarrow> kv_world \<Rightarrow> (error + string option) \<times> kv_world" where
  "kv_get KV key W =
     (let S = W (ns KV);
          W' = W (ns KV := S\<lparr>getCalls := getCalls S @ [key]\<rparr>)
      in case get_throws S key of
           Some e \<Rightarrow> (Inl e, W')
         | None \<Rightarrow> (Inr (data S key), W'))"

text \<open>A value of \<^verbatim>\<open>undefined\<close> (\<open>None\<close>) put at a key reads back as absent, as in the
  test double (\<^verbatim>\<open>data.set(key, undefined)\<close>, then \<^verbatim>\<open>text === undefined\<close> gives \<^verbatim>\<open>null\<close>).\<close>

definition kv_put :: "kvobj \<Rightarrow> string \<Rightarrow> string option \<Rightarrow> jsnum \<Rightarrow> kv_world \<Rightarrow> (error + unit) \<times> kv_world" where
  "kv_put KV key val expirationTtl W =
     (let S = W (ns KV);
          S' = S\<lparr>putCalls := putCalls S @ [(key, val, expirationTtl)]\<rparr>
      in case put_throws S key of
           Some e \<Rightarrow> (Inl e, W (ns KV := S'))
         | None \<Rightarrow> (Inr (), W (ns KV := S'\<lparr>data := (data S') (key := val)\<rparr>)))"

definition kv_delete :: "kvobj \<Rightarrow> string \<Rightarrow> kv_world \<Rightarrow> (error + unit) \<times> kv_world" where
  "kv_delete KV key W =
     (let S = W (ns KV);
          S' = S\<lparr>deleteCalls := deleteCalls S @ [key]\<rparr>
      in case delete_throws S key of
           Some e \<Rightarrow> (Inl e, W (ns KV := S'))
         | None \<Rightarrow> (Inr (), W (ns KV := S'\<lparr>data := (data S') (key := None)\<rparr>)))"

section \<open>The host: user functions and JSON\<close>

text \<open>
  The wrapped function, a key function and custom get/set strategies are user code,
  and \<^verbatim>\<open>JSON.stringify\<close>/\<^verbatim>\<open>JSON.parse\<close> are built-ins of the runtime. They are
  parameters of the model, collected in a record. A user function is referred to by
  a number; \<open>fun_name\<close> is its \<^verbatim>\<open>name\<close> property and \<open>fun_apply f this args\<close> is
  \<^verbatim>\<open>f.apply(this, args)\<close> (awaited), which returns or throws.
  \<^verbatim>\<open>JSON.stringify\<close> returns text, or \<^verbatim>\<open>undefined\<close> (\<open>None\<close>), or throws.
  A custom strategy receives the store object and may use any store it can reach, so
  it is a transformer of the stores. The wrapped function and the key function are
  functions of their receiver and arguments and do not use the stores themselves:
  every store effect in the model is the wrapper's or a custom strategy's.
\<close>

record host =
  fun_name :: "nat \<Rightarrow> string"
  fun_apply :: "nat \<Rightarrow> jsval \<Rightarrow> jsval list \<Rightarrow> error + jsval"
  getter_apply :: "nat \<Rightarrow> kvobj \<Rightarrow> string \<Rightarrow> kv_world \<Rightarrow> (error + jsval) \<times> kv_world"
  setter_apply :: "nat \<Rightarrow> kvobj \<Rightarrow> string \<Rightarrow> jsval \<Rightarrow> jsval \<Rightarrow> kv_world \<Rightarrow> (error + jsval) \<times> kv_world"
  JSON_stringify :: "jsval \<Rightarrow> error + string option"
  JSON_parse :: "string \<Rightarrow> error + jsval"

section \<open>Default strategies\<close>

text \<open>
  \<^verbatim>\<open>
  async function defaultGet (KV, key) {
    try {
      const text = await KV.get(key)
      if (text == null) return
      return JSON.parse(text)
    } catch (_) {}
  }
  \<close>
\<close>

definition defaultGet :: "host \<Rightarrow> kvobj \<Rightarrow> string \<Rightarrow> kv_world \<Rightarrow> (error + jsval) \<times> kv_world" where
  "defaultGet h KV key W =
     (case kv_get KV key W of
        (Inl e, W') \<Rightarrow> (Inr Undefined, W')
      | (Inr None, W') \<Rightarrow> (Inr Undefined, W')
      | (Inr (Some text), W') \<Rightarrow>
          (case JSON_parse h text of
             Inl e \<Rightarrow> (Inr Undefined, W')
           | Inr v \<Rightarrow> (Inr v, W')))"

text \<open>
  \<^verbatim>\<open>
  async function defaultSet (KV, key, value, ttl) {
    if (value === undefined) return
    try {
      await KV.put(key, JSON.stringify(value), { expirationTtl: Math.floor(ttl) })
    } catch (_) {}
  }
  \<close>
\<close>

definition defaultSet :: "host \<Rightarrow> kvobj \<Rightarrow> string \<Rightarrow> jsval \<Rightarrow> jsval \<Rightarrow> kv_world \<Rightarrow> (error + jsval) \<times> kv_world" where
  "defaultSet h KV key val ttl W =
     (if val = Undefined then (Inr Undefined, W)
      else case JSON_stringify h val of
             Inl e \<Rightarrow> (Inr Undefined, W)
           | Inr text \<Rightarrow>
               (case kv_put KV key text (Math_floor ttl) W of
                  (r, W') \<Rightarrow> (Inr Undefined, W')))"

section \<open>Wrapping: \<^verbatim>\<open>kvCache(fn, fnOptions)\<close>\<close>

text \<open>A strategy in effect is the default one or a user function.\<close>

datatype strategy = Default | Custom nat

text \<open>The constants of the closure that \<^verbatim>\<open>kvCache\<close> creates.\<close>

record config =
  binding :: string
  prefix :: string
  ttl :: jsval
  keyGenerator :: jsval
  getter :: strategy
  setter :: strategy
  fn :: nat

text \<open>\<^verbatim>\<open>const binding = opts.binding || 'KV'\<close>\<close>

definition binding_of :: "options \<Rightarrow> jsval" where
  "binding_of opts = js_or (get_prop opts ''binding'') (JStr ''KV'')"

text \<open>\<^verbatim>\<open>const prefix = typeof opts.prefix === 'string' ? opts.prefix : ''\<close>\<close>

definition prefix_of :: "options \<Rightarrow> jsval" where
  "prefix_of opts =
     (if typeof (get_prop opts ''prefix'') = ''string'' then get_prop opts ''prefix'' else JStr [])"

text \<open>\<^verbatim>\<open>const keyGenerator = opts.key || fn.name\<close>\<close>

definition keyGenerator_of :: "host \<Rightarrow> nat \<Rightarrow> options \<Rightarrow> jsval" where
  "keyGenerator_of h f opts = js_or (get_prop opts ''key'') (JStr (fun_name h f))"

text \<open>\<^verbatim>\<open>typeof opts.get === 'function' ? opts.get : defaultGet\<close>, and the same for
  \<^verbatim>\<open>opts.set\<close>.\<close>

definition strategy_of :: "jsval \<Rightarrow> strategy" where
  "strategy_of v = (case v of JFun g \<Rightarrow> Custom g | _ \<Rightarrow> Default)"

definition str_of :: "jsval \<Rightarrow> string" where
  "str_of v = (case v of JStr s \<Rightarrow> s | _ \<Rightarrow> [])"

definition binding_msg :: string where
  "binding_msg = ''binding must be a non-empty string (KV binding name)''"

definition prefix_msg :: string where
  "prefix_msg = ''prefix must be a string''"

definition key_msg :: string where
  "key_msg = ''`key` must be string or function!''"

definition ttl_msg :: string where
  "ttl_msg = ''ttl must be a number of seconds >= 60''"

text \<open>
  The four assertions of \<^verbatim>\<open>kvCache\<close>, in the order of the source. The result is the
  closure's constants, or the \<^verbatim>\<open>TypeError\<close> of the first assertion that fails. The
  first argument of the factory (\<open>options\<close>) is an object here, as its declaration
  (\<^verbatim>\<open>Partial<CloudflareKVCacheOptions>\<close>) says, and \<open>f\<close> is a function.
\<close>

definition kvCache :: "host \<Rightarrow> options \<Rightarrow> nat \<Rightarrow> options \<Rightarrow> error + config" where
  "kvCache h options f fnOptions =
     (let opts = Object_assign options fnOptions;
          binding = binding_of opts;
          prefix = prefix_of opts;
          ttl = get_prop opts ''ttl'';
          keyGenerator = keyGenerator_of h f opts;
          getter = strategy_of (get_prop opts ''get'');
          setter = strategy_of (get_prop opts ''set'')
      in case assert (typeof binding = ''string'' \<and> length (str_of binding) > 0) binding_msg of
           Inl e \<Rightarrow> Inl e
         | Inr _ \<Rightarrow>
       (case assert (typeof prefix = ''string'') prefix_msg of
           Inl e \<Rightarrow> Inl e
         | Inr _ \<Rightarrow>
       (case assert (truthy keyGenerator \<and>
                     (typeof keyGenerator = ''string'' \<or> typeof keyGenerator = ''function'')) key_msg of
           Inl e \<Rightarrow> Inl e
         | Inr _ \<Rightarrow>
       (case assert (Number_isFinite ttl \<and> js_ge ttl 60) ttl_msg of
           Inl e \<Rightarrow> Inl e
         | Inr _ \<Rightarrow>
           Inr \<lparr>binding = str_of binding, prefix = str_of prefix, ttl = ttl,
                keyGenerator = keyGenerator, getter = getter, setter = setter, fn = f\<rparr>))))"

section \<open>State of a wrapped function and of its surroundings\<close>

text \<open>
  \<open>runtimeCache\<close> is the closure variable of that name (\<^verbatim>\<open>null\<close>, or the module
  \<^verbatim>\<open>cloudflare:workers\<close> once imported). The rest is ambient: whether the import
  fails, the module's \<^verbatim>\<open>env\<close> object, and the stores. \<open>trace\<close> records what the
  wrapper does outside the stores: a completed import, a read of \<^verbatim>\<open>env[binding]\<close>
  (with the capability check that follows it), a call of the key function and a call
  of the wrapped function.
\<close>

datatype module = CloudflareWorkers

datatype event =
    EvImport
  | EvEnvRead string
  | EvKeyFn "jsval list"
  | EvFn jsval "jsval list"

record state =
  runtimeCache :: "module option"
  import_throws :: "error option"
  env :: "string \<rightharpoonup> kvobj"
  stores :: kv_world
  trace :: "event list"

definition record_event :: "event \<Rightarrow> state \<Rightarrow> state" where
  "record_event e s = s\<lparr>trace := trace s @ [e]\<rparr>"

definition kv_msg :: "string \<Rightarrow> string" where
  "kv_msg b = ''KV binding not found or invalid for name: '' @ b"

text \<open>
  \<^verbatim>\<open>
  let runtimeCache = null
  async function resolveKV () {
    if (!runtimeCache) {
      runtimeCache = await import('cloudflare:workers')
    }
    const KV = runtimeCache.env[binding]
    assert(KV && typeof KV.get === 'function' && typeof KV.put === 'function'
              && typeof KV.delete === 'function', `KV binding not found ...`)
    return KV
  }
  \<close>
\<close>

definition import_workers :: "state \<Rightarrow> (error + unit) \<times> state" where
  "import_workers s =
     (case import_throws s of
        Some e \<Rightarrow> (Inl e, s)
      | None \<Rightarrow> (Inr (), record_event EvImport (s\<lparr>runtimeCache := Some CloudflareWorkers\<rparr>)))"

definition check_KV :: "string \<Rightarrow> kvobj option \<Rightarrow> error + kvobj" where
  "check_KV b KV =
     (case KV of
        None \<Rightarrow> Inl (TypeError (kv_msg b))
      | Some k \<Rightarrow>
          (case assert (has_get k \<and> has_put k \<and> has_delete k) (kv_msg b) of
             Inl e \<Rightarrow> Inl e
           | Inr _ \<Rightarrow> Inr k))"

definition resolveKV :: "config \<Rightarrow> state \<Rightarrow> (error + kvobj) \<times> state" where
  "resolveKV c s =
     (case (if runtimeCache s = None then import_workers s else (Inr (), s)) of
        (Inl e, s1) \<Rightarrow> (Inl e, s1)
      | (Inr _, s1) \<Rightarrow>
          (let s2 = record_event (EvEnvRead (binding c)) s1
           in (check_KV (binding c) (env s2 (binding c)), s2)))"

text \<open>
  The result of \<^verbatim>\<open>computeKey\<close>: \<^verbatim>\<open>false\<close> (\<open>Bypass\<close>) or the key.
  \<^verbatim>\<open>
  async function computeKey (args) {
    if (typeof keyGenerator === 'string') {
      return prefix + keyGenerator
    }
    const key = await keyGenerator.apply(fn, args)
    if (key === false) return false
    assert(typeof key === 'string', 'key function must return a string or false')
    return prefix + key
  }
  \<close>
  A \<open>keyGenerator\<close> that is neither a string nor a function cannot pass the
  assertions of \<^verbatim>\<open>kvCache\<close>; \<^verbatim>\<open>.apply\<close> on such a value is a \<^verbatim>\<open>TypeError\<close>.
\<close>

datatype cache_key = Bypass | Key string

definition keyfn_msg :: string where
  "keyfn_msg = ''key function must return a string or false''"

definition computeKey :: "host \<Rightarrow> config \<Rightarrow> jsval list \<Rightarrow> state \<Rightarrow> (error + cache_key) \<times> state" where
  "computeKey h c args s =
     (case keyGenerator c of
        JStr k \<Rightarrow> (Inr (Key (prefix c @ k)), s)
      | JFun g \<Rightarrow>
          (let s1 = record_event (EvKeyFn args) s
           in case fun_apply h g (JFun (fn c)) args of
                Inl e \<Rightarrow> (Inl e, s1)
              | Inr key \<Rightarrow>
                  if key = JBool False then (Inr Bypass, s1)
                  else (case assert (typeof key = ''string'') keyfn_msg of
                          Inl e \<Rightarrow> (Inl e, s1)
                        | Inr _ \<Rightarrow> (Inr (Key (prefix c @ str_of key)), s1)))
      | _ \<Rightarrow> (Inl (TypeError ''keyGenerator.apply is not a function''), s))"

text \<open>\<^verbatim>\<open>fn.apply(this, args)\<close>.\<close>

definition call_fn :: "host \<Rightarrow> config \<Rightarrow> jsval \<Rightarrow> jsval list \<Rightarrow> state \<Rightarrow> (error + jsval) \<times> state" where
  "call_fn h c this args s = (fun_apply h (fn c) this args, record_event (EvFn this args) s)"

text \<open>\<^verbatim>\<open>getter(KV, cacheKey)\<close> and \<^verbatim>\<open>setter(KV, cacheKey, value, ttl)\<close>, for the strategy
  in effect.\<close>

definition call_getter :: "host \<Rightarrow> config \<Rightarrow> kvobj \<Rightarrow> string \<Rightarrow> state \<Rightarrow> (error + jsval) \<times> state" where
  "call_getter h c KV key s =
     (case (case getter c of
              Default \<Rightarrow> defaultGet h KV key (stores s)
            | Custom g \<Rightarrow> getter_apply h g KV key (stores s)) of
        (r, W) \<Rightarrow> (r, s\<lparr>stores := W\<rparr>))"

definition call_setter :: "host \<Rightarrow> config \<Rightarrow> kvobj \<Rightarrow> string \<Rightarrow> jsval \<Rightarrow> jsval \<Rightarrow> state \<Rightarrow> (error + jsval) \<times> state" where
  "call_setter h c KV key val t s =
     (case (case setter c of
              Default \<Rightarrow> defaultSet h KV key val t (stores s)
            | Custom g \<Rightarrow> setter_apply h g KV key val t (stores s)) of
        (r, W) \<Rightarrow> (r, s\<lparr>stores := W\<rparr>))"

section \<open>The wrapped function and its auxiliary operations\<close>

text \<open>\<^verbatim>\<open>async function raw (...args) { return fn.apply(this, args) }\<close>\<close>

definition raw :: "host \<Rightarrow> config \<Rightarrow> jsval \<Rightarrow> jsval list \<Rightarrow> state \<Rightarrow> (error + jsval) \<times> state" where
  "raw h c this args s = call_fn h c this args s"

text \<open>
  \<^verbatim>\<open>
  async function cache (...args) {
    const cacheKey = await computeKey(args)
    if (cacheKey === false) {
      return fn.apply(this, args)
    }
    const KV = await resolveKV()
    let result = await getter(KV, cacheKey)
    if (result !== undefined) {
      return result
    }
    result = await fn.apply(this, args)
    await setter(KV, cacheKey, result, ttl)
    return result
  }
  \<close>
\<close>

definition cache :: "host \<Rightarrow> config \<Rightarrow> jsval \<Rightarrow> jsval list \<Rightarrow> state \<Rightarrow> (error + jsval) \<times> state" where
  "cache h c this args s =
     (case computeKey h c args s of
        (Inl e, s1) \<Rightarrow> (Inl e, s1)
      | (Inr Bypass, s1) \<Rightarrow> call_fn h c this args s1
      | (Inr (Key cacheKey), s1) \<Rightarrow>
     (case resolveKV c s1 of
        (Inl e, s2) \<Rightarrow> (Inl e, s2)
      | (Inr KV, s2) \<Rightarrow>
     (case call_getter h c KV cacheKey s2 of
        (Inl e, s3) \<Rightarrow> (Inl e, s3)
      | (Inr result, s3) \<Rightarrow>
          if result \<noteq> Undefined then (Inr result, s3)
          else
     (case call_fn h c this args s3 of
        (Inl e, s4) \<Rightarrow> (Inl e, s4)
      | (Inr result', s4) \<Rightarrow>
     (case call_setter h c KV cacheKey result' (ttl c) s4 of
        (Inl e, s5) \<Rightarrow> (Inl e, s5)
      | (Inr _, s5) \<Rightarrow> (Inr result', s5))))))"

text \<open>
  \<^verbatim>\<open>
  async function get (...args) {
    const cacheKey = await computeKey(args)
    if (cacheKey === false) {
      return
    }
    const KV = await resolveKV()
    return getter(KV, cacheKey)
  }
  \<close>
  (The operations \<^verbatim>\<open>get\<close>, \<^verbatim>\<open>set\<close> and \<^verbatim>\<open>clear\<close> carry the suffix \<open>_op\<close> here.)
\<close>

definition get_op :: "host \<Rightarrow> config \<Rightarrow> jsval list \<Rightarrow> state \<Rightarrow> (error + jsval) \<times> state" where
  "get_op h c args s =
     (case computeKey h c args s of
        (Inl e, s1) \<Rightarrow> (Inl e, s1)
      | (Inr Bypass, s1) \<Rightarrow> (Inr Undefined, s1)
      | (Inr (Key cacheKey), s1) \<Rightarrow>
     (case resolveKV c s1 of
        (Inl e, s2) \<Rightarrow> (Inl e, s2)
      | (Inr KV, s2) \<Rightarrow> call_getter h c KV cacheKey s2))"

text \<open>
  \<^verbatim>\<open>
  async function set (...argsAndValue) {
    const value = argsAndValue[argsAndValue.length - 1]
    const args = argsAndValue.slice(0, -1)
    const cacheKey = await computeKey(args)
    if ((cacheKey === false) || (value === undefined)) {
      return
    }
    const KV = await resolveKV()
    return setter(KV, cacheKey, value, ttl)
  }
  \<close>
  Reading index \<open>-1\<close> of an empty argument list gives \<^verbatim>\<open>undefined\<close>.
\<close>

definition last_arg :: "jsval list \<Rightarrow> jsval" where
  "last_arg argsAndValue = (if argsAndValue = [] then Undefined else last argsAndValue)"

definition set_op :: "host \<Rightarrow> config \<Rightarrow> jsval list \<Rightarrow> state \<Rightarrow> (error + jsval) \<times> state" where
  "set_op h c argsAndValue s =
     (let val = last_arg argsAndValue;
          args = butlast argsAndValue
      in case computeKey h c args s of
        (Inl e, s1) \<Rightarrow> (Inl e, s1)
      | (Inr cacheKey, s1) \<Rightarrow>
          if cacheKey = Bypass \<or> val = Undefined then (Inr Undefined, s1)
          else
     (case resolveKV c s1 of
        (Inl e, s2) \<Rightarrow> (Inl e, s2)
      | (Inr KV, s2) \<Rightarrow>
          call_setter h c KV (case cacheKey of Key k \<Rightarrow> k | Bypass \<Rightarrow> []) val (ttl c) s2))"

text \<open>
  \<^verbatim>\<open>
  async function clear (...args) {
    const cacheKey = await computeKey(args)
    if (cacheKey === false) {
      return
    }
    const KV = await resolveKV()
    return KV.delete(cacheKey)
  }
  \<close>
\<close>

definition clear_op :: "host \<Rightarrow> config \<Rightarrow> jsval list \<Rightarrow> state \<Rightarrow> (error + jsval) \<times> state" where
  "clear_op h c args s =
     (case computeKey h c args s of
        (Inl e, s1) \<Rightarrow> (Inl e, s1)
      | (Inr Bypass, s1) \<Rightarrow> (Inr Undefined, s1)
      | (Inr (Key cacheKey), s1) \<Rightarrow>
     (case resolveKV c s1 of
        (Inl e, s2) \<Rightarrow> (Inl e, s2)
      | (Inr KV, s2) \<Rightarrow>
          (case kv_delete KV cacheKey (stores s2) of
             (Inl e, W) \<Rightarrow> (Inl e, s2\<lparr>stores := W\<rparr>)
           | (Inr _, W) \<Rightarrow> (Inr Undefined, s2\<lparr>stores := W\<rparr>))))"

section \<open>Sequences of operations on one wrapped function\<close>

text \<open>The five operations of the surface, applied one after the other to the same
  wrapped function; only the state is kept.\<close>

datatype operation =
    Call jsval "jsval list"
  | Raw jsval "jsval list"
  | Get "jsval list"
  | Set "jsval list"
  | Clear "jsval list"

fun run_op :: "host \<Rightarrow> config \<Rightarrow> operation \<Rightarrow> state \<Rightarrow> (error + jsval) \<times> state" where
  "run_op h c (Call this args) s = cache h c this args s"
| "run_op h c (Raw this args) s = raw h c this args s"
| "run_op h c (Get args) s = get_op h c args s"
| "run_op h c (Set argsAndValue) s = set_op h c argsAndValue s"
| "run_op h c (Clear args) s = clear_op h c args s"

fun run_ops :: "host \<Rightarrow> config \<Rightarrow> operation list \<Rightarrow> state \<Rightarrow> state" where
  "run_ops h c [] s = s"
| "run_ops h c (x # xs) s = run_ops h c xs (snd (run_op h c x s))"

text \<open>How often the trace records an import, and the calls of the wrapped function in it.\<close>

definition import_count :: "event list \<Rightarrow> nat" where
  "import_count tr = length (filter (\<lambda>e. e = EvImport) tr)"

text \<open>The import is recorded exactly when the closure variable holds the module.\<close>

definition import_inv :: "state \<Rightarrow> bool" where
  "import_inv s = (import_count (trace s) = (if runtimeCache s = None then 0 else 1))"

fun is_fn_call :: "event \<Rightarrow> bool" where
  "is_fn_call (EvFn this args) = True"
| "is_fn_call e = False"

definition fn_calls :: "event list \<Rightarrow> event list" where
  "fn_calls tr = filter is_fn_call tr"

section \<open>Fixtures of the test suite\<close>

text \<open>
  The test suite runs every test on a fresh \<^verbatim>\<open>createFakeKV()\<close> bound as \<^verbatim>\<open>KV\<close> in
  the module's \<^verbatim>\<open>env\<close> (\<^verbatim>\<open>loadFactoryWithEnv({ KV })\<close>).
\<close>

definition createFakeKV :: store where
  "createFakeKV =
     \<lparr>data = Map.empty, getCalls = [], putCalls = [], deleteCalls = [],
      get_throws = (\<lambda>key. None), put_throws = (\<lambda>key. None), delete_throws = (\<lambda>key. None)\<rparr>"

definition fakeKV_object :: kvobj where
  "fakeKV_object = \<lparr>has_get = True, has_put = True, has_delete = True, ns = 0\<rparr>"

definition fresh_state :: state where
  "fresh_state =
     \<lparr>runtimeCache = None, import_throws = None, env = [''KV'' \<mapsto> fakeKV_object],
      stores = (\<lambda>n. createFakeKV), trace = []\<rparr>"

text \<open>
  JSON at the values the tests send through it: \<^verbatim>\<open>JSON.stringify(1)\<close> is \<^verbatim>\<open>'1'\<close>,
  \<^verbatim>\<open>JSON.stringify(777)\<close> is \<^verbatim>\<open>'777'\<close>, \<^verbatim>\<open>JSON.stringify(null)\<close> is \<^verbatim>\<open>'null'\<close>,
  \<^verbatim>\<open>JSON.stringify\<close> of a function is \<^verbatim>\<open>undefined\<close>, and \<^verbatim>\<open>JSON.parse('not-json')\<close>
  throws. This table stands for the built-ins in the examples only; no theorem about
  the wrapper depends on it.
\<close>

definition example_stringify :: "jsval \<Rightarrow> error + string option" where
  "example_stringify v =
     (if v = JNum (Finite 1) then Inr (Some ''1'')
      else if v = JNum (Finite 777) then Inr (Some ''777'')
      else if v = Null then Inr (Some ''null'')
      else case v of
             JFun g \<Rightarrow> Inr None
           | _ \<Rightarrow> Inl (Thrown (JStr ''not in the table'')))"

definition example_parse :: "string \<Rightarrow> error + jsval" where
  "example_parse text =
     (if text = ''1'' then Inr (JNum (Finite 1))
      else if text = ''777'' then Inr (JNum (Finite 777))
      else if text = ''null'' then Inr Null
      else Inl (Thrown (JStr ''SyntaxError'')))"

text \<open>
  User functions of the examples: \<open>0\<close> is the anonymous \<^verbatim>\<open>() => 1\<close>, \<open>1\<close> is
  \<^verbatim>\<open>async function one () { return 1 }\<close>, \<open>2\<close> is the key function \<^verbatim>\<open>() => false\<close>,
  \<open>3\<close> is a set strategy \<^verbatim>\<open>async () => { throw 'boom' }\<close> and \<open>4\<close> a get strategy
  \<^verbatim>\<open>async () => undefined\<close>.
\<close>

definition example_host :: host where
  "example_host =
     \<lparr>fun_name = (\<lambda>f. if f = 1 then ''one'' else []),
      fun_apply = (\<lambda>f this args. if f = 2 then Inr (JBool False) else Inr (JNum (Finite 1))),
      getter_apply = (\<lambda>g KV key W. (Inr Undefined, W)),
      setter_apply = (\<lambda>g KV key val t W. (Inl (Thrown (JStr ''boom'')), W)),
      JSON_stringify = example_stringify,
      JSON_parse = example_parse\<rparr>"

text \<open>\<^verbatim>\<open>CloudflareKVCache({ ttl: 60 })(async function one () { return 1 }, { key: 'fixed' })\<close>\<close>

definition fixed_config :: config where
  "fixed_config =
     \<lparr>binding = ''KV'', prefix = [], ttl = JNum (Finite 60), keyGenerator = JStr ''fixed'',
      getter = Default, setter = Default, fn = 1\<rparr>"

section \<open>Validation of the options at wrap time\<close>

lemma get_prop_absent: "opts name = None \<Longrightarrow> get_prop opts name = Undefined"
  by (simp add: get_prop_def)

lemma ttl_check_iff:
  "(Number_isFinite t \<and> js_ge t 60) = (\<exists>q. t = JNum (Finite q) \<and> 60 \<le> q)"
  by (cases t rule: Number_isFinite.cases) auto

lemma binding_of_nonempty:
  "typeof (binding_of opts) = ''string'' \<Longrightarrow> str_of (binding_of opts) \<noteq> []"
  by (cases "get_prop opts ''binding''")
     (auto simp: binding_of_def js_or_def str_of_def split: if_splits)

lemma prefix_of_string: "typeof (prefix_of opts) = ''string''"
  by (simp add: prefix_of_def)

lemma kvCache_Inl_TypeError:
  "kvCache h options f fnOptions = Inl e \<Longrightarrow> \<exists>m. e = TypeError m"
  by (auto simp: kvCache_def Let_def assert_def split: if_splits)

lemma kvCache_bad_ttl:
  assumes "\<not> (\<exists>q. get_prop (Object_assign options fnOptions) ''ttl'' = JNum (Finite q) \<and> 60 \<le> q)"
  shows "\<exists>m. kvCache h options f fnOptions = Inl (TypeError m)"
proof -
  from assms have "\<not> (Number_isFinite (get_prop (Object_assign options fnOptions) ''ttl'')
      \<and> js_ge (get_prop (Object_assign options fnOptions) ''ttl'') 60)"
    using ttl_check_iff[of "get_prop (Object_assign options fnOptions) ''ttl''"] by blast
  then show ?thesis
    by (auto simp: kvCache_def Let_def assert_def)
qed

lemma kvCache_ttl_60:
  assumes "get_prop (Object_assign options fnOptions) ''ttl'' = JNum (Finite 60)"
  shows "kvCache h options f fnOptions \<noteq> Inl (TypeError ttl_msg)"
  using assms
  by (auto simp: kvCache_def Let_def assert_def binding_msg_def prefix_msg_def key_msg_def
      ttl_msg_def split: if_splits)

lemma kvCache_accepts:
  assumes "get_prop (Object_assign options fnOptions) ''ttl'' = JNum (Finite q)" "60 \<le> q"
    and "typeof (binding_of (Object_assign options fnOptions)) = ''string''"
    and "truthy (keyGenerator_of h f (Object_assign options fnOptions))"
    and "typeof (keyGenerator_of h f (Object_assign options fnOptions)) = ''string''
              \<or> typeof (keyGenerator_of h f (Object_assign options fnOptions)) = ''function''"
  shows "\<exists>c. kvCache h options f fnOptions = Inr c \<and> ttl c = JNum (Finite q)"
  using assms binding_of_nonempty[OF assms(3)] prefix_of_string[of "Object_assign options fnOptions"]
  by (simp add: kvCache_def Let_def assert_def)

text \<open>What the binding assertion does reject: a truthy binding that is not a string. A
  binding that is not given reads as \<^verbatim>\<open>undefined\<close> and becomes \<^verbatim>\<open>'KV'\<close>.\<close>

lemma kvCache_binding_not_string:
  assumes "truthy (get_prop (Object_assign options fnOptions) ''binding'')"
    and "typeof (get_prop (Object_assign options fnOptions) ''binding'') \<noteq> ''string''"
  shows "kvCache h options f fnOptions = Inl (TypeError binding_msg)"
  using assms by (simp add: kvCache_def Let_def assert_def binding_of_def js_or_def)

lemma binding_of_falsy:
  "\<not> truthy (get_prop opts ''binding'') \<Longrightarrow> binding_of opts = JStr ''KV''"
  by (simp add: binding_of_def js_or_def)

lemma fixed_config_is_wrapped:
  "kvCache example_host [''ttl'' \<mapsto> JNum (Finite 60)] 1 [''key'' \<mapsto> JStr ''fixed'']
     = Inr fixed_config"
  by (simp add: kvCache_def Let_def assert_def Object_assign_def get_prop_def binding_of_def
      prefix_of_def keyGenerator_of_def js_or_def strategy_of_def str_of_def fixed_config_def)

text \<open>
  Claim C3. Wrapping fails with a type error, at wrap time, whenever the effective
  \<open>ttl\<close> is not a finite number of at least 60, in particular when no \<open>ttl\<close> is given at
  all; a \<open>ttl\<close> of exactly 60 is accepted: the \<open>ttl\<close> assertion never fails on it, and
  wrapping succeeds with that \<open>ttl\<close> whenever the binding and the key pass their own
  assertions.
\<close>

theorem kvCache_ttl:
  "(\<not> (\<exists>q. get_prop (Object_assign options fnOptions) ''ttl'' = JNum (Finite q) \<and> 60 \<le> q)
      \<longrightarrow> (\<exists>m. kvCache h options f fnOptions = Inl (TypeError m)))
   \<and> (Object_assign options fnOptions ''ttl'' = None
      \<longrightarrow> (\<exists>m. kvCache h options f fnOptions = Inl (TypeError m)))
   \<and> (get_prop (Object_assign options fnOptions) ''ttl'' = JNum (Finite 60)
      \<longrightarrow> kvCache h options f fnOptions \<noteq> Inl (TypeError ttl_msg)
        \<and> (typeof (binding_of (Object_assign options fnOptions)) = ''string''
           \<and> truthy (keyGenerator_of h f (Object_assign options fnOptions))
           \<and> (typeof (keyGenerator_of h f (Object_assign options fnOptions)) = ''string''
              \<or> typeof (keyGenerator_of h f (Object_assign options fnOptions)) = ''function'')
           \<longrightarrow> (\<exists>c. kvCache h options f fnOptions = Inr c \<and> ttl c = JNum (Finite 60))))"
proof (intro conjI impI)
  assume "\<not> (\<exists>q. get_prop (Object_assign options fnOptions) ''ttl'' = JNum (Finite q) \<and> 60 \<le> q)"
  then show "\<exists>m. kvCache h options f fnOptions = Inl (TypeError m)"
    by (rule kvCache_bad_ttl)
next
  assume "Object_assign options fnOptions ''ttl'' = None"
  then have "get_prop (Object_assign options fnOptions) ''ttl'' = Undefined"
    by (rule get_prop_absent)
  then have "\<not> (\<exists>q. get_prop (Object_assign options fnOptions) ''ttl'' = JNum (Finite q) \<and> 60 \<le> q)"
    by simp
  then show "\<exists>m. kvCache h options f fnOptions = Inl (TypeError m)"
    by (rule kvCache_bad_ttl)
next
  assume "get_prop (Object_assign options fnOptions) ''ttl'' = JNum (Finite 60)"
  then show "kvCache h options f fnOptions \<noteq> Inl (TypeError ttl_msg)"
    by (rule kvCache_ttl_60)
next
  assume t: "get_prop (Object_assign options fnOptions) ''ttl'' = JNum (Finite 60)"
    and rest: "typeof (binding_of (Object_assign options fnOptions)) = ''string''
           \<and> truthy (keyGenerator_of h f (Object_assign options fnOptions))
           \<and> (typeof (keyGenerator_of h f (Object_assign options fnOptions)) = ''string''
              \<or> typeof (keyGenerator_of h f (Object_assign options fnOptions)) = ''function'')"
  from rest show "\<exists>c. kvCache h options f fnOptions = Inr c \<and> ttl c = JNum (Finite 60)"
    using kvCache_accepts[OF t, of h f] by simp
qed

text \<open>The examples of the test suite: \<^verbatim>\<open>{ ttl: 59 }\<close> over the default \<^verbatim>\<open>{ ttl: 60 }\<close>
  and a missing \<open>ttl\<close> are rejected, \<^verbatim>\<open>{ ttl: 60 }\<close> with \<^verbatim>\<open>{ key: 'fixed' }\<close> is accepted.\<close>

theorem kvCache_ttl_witness:
  "(\<exists>m. kvCache example_host [''ttl'' \<mapsto> JNum (Finite 60)] 1
           [''ttl'' \<mapsto> JNum (Finite 59), ''key'' \<mapsto> JStr ''fixed''] = Inl (TypeError m))
   \<and> (\<exists>m. kvCache example_host Map.empty 1 [''key'' \<mapsto> JStr ''fixed''] = Inl (TypeError m))
   \<and> (\<exists>c. kvCache example_host [''ttl'' \<mapsto> JNum (Finite 60)] 1 [''key'' \<mapsto> JStr ''fixed''] = Inr c
          \<and> ttl c = JNum (Finite 60))"
proof -
  have a: "\<not> (\<exists>q. get_prop (Object_assign [''ttl'' \<mapsto> JNum (Finite 60)]
                 [''ttl'' \<mapsto> JNum (Finite 59), ''key'' \<mapsto> JStr ''fixed'']) ''ttl'' = JNum (Finite q)
               \<and> 60 \<le> q)"
    by (simp add: Object_assign_def get_prop_def)
  have b: "Object_assign Map.empty [''key'' \<mapsto> JStr ''fixed''] ''ttl'' = None"
    by (simp add: Object_assign_def)
  have c: "get_prop (Object_assign [''ttl'' \<mapsto> JNum (Finite 60)] [''key'' \<mapsto> JStr ''fixed'']) ''ttl''
             = JNum (Finite 60)"
    by (simp add: Object_assign_def get_prop_def)
  have d: "typeof (binding_of (Object_assign [''ttl'' \<mapsto> JNum (Finite 60)]
                    [''key'' \<mapsto> JStr ''fixed''])) = ''string''"
    by (simp add: Object_assign_def get_prop_def binding_of_def js_or_def)
  have e: "keyGenerator_of example_host 1 (Object_assign [''ttl'' \<mapsto> JNum (Finite 60)]
              [''key'' \<mapsto> JStr ''fixed'']) = JStr ''fixed''"
    by (simp add: Object_assign_def get_prop_def keyGenerator_of_def js_or_def)
  from a b c d e
    kvCache_ttl[of "[''ttl'' \<mapsto> JNum (Finite 60)]"
       "[''ttl'' \<mapsto> JNum (Finite 59), ''key'' \<mapsto> JStr ''fixed'']" example_host 1]
    kvCache_ttl[of Map.empty "[''key'' \<mapsto> JStr ''fixed'']" example_host 1]
    kvCache_ttl[of "[''ttl'' \<mapsto> JNum (Finite 60)]" "[''key'' \<mapsto> JStr ''fixed'']" example_host 1]
  show ?thesis by simp
qed

text \<open>
  Claim C9, at the input where the code departs from it: an effective binding that is
  the empty string does not make wrapping fail. \<^verbatim>\<open>opts.binding || 'KV'\<close> replaces
  every falsy binding by \<^verbatim>\<open>'KV'\<close> before the assertion
  \<^verbatim>\<open>typeof binding === 'string' && binding.length > 0\<close> sees it, so
  \<^verbatim>\<open>CloudflareKVCache({ ttl: 60 })(fn, { binding: '', key: 'fixed' })\<close> returns a wrapped
  function bound to \<^verbatim>\<open>'KV'\<close>.
\<close>

theorem kvCache_empty_binding:
  "kvCache h [''ttl'' \<mapsto> JNum (Finite 60)] f [''binding'' \<mapsto> JStr [], ''key'' \<mapsto> JStr ''fixed'']
     = Inr \<lparr>binding = ''KV'', prefix = [], ttl = JNum (Finite 60), keyGenerator = JStr ''fixed'',
            getter = Default, setter = Default, fn = f\<rparr>"
  by (simp add: kvCache_def Let_def assert_def Object_assign_def get_prop_def binding_of_def
      prefix_of_def keyGenerator_of_def js_or_def strategy_of_def str_of_def)

text \<open>
  Claim C10. Wrapping a function whose name is the empty string, with no \<open>key\<close> option
  in effect, fails with a type error at wrap time: the key defaults to the name, the
  empty string, and the key assertion rejects it (it is the assertion that fails
  whenever the binding passes its own, which comes first).
\<close>

theorem kvCache_anonymous_no_key:
  assumes "fun_name h f = []"
    and "get_prop (Object_assign options fnOptions) ''key'' = Undefined"
  shows "keyGenerator_of h f (Object_assign options fnOptions) = JStr []
     \<and> (\<exists>m. kvCache h options f fnOptions = Inl (TypeError m))
     \<and> (typeof (binding_of (Object_assign options fnOptions)) = ''string''
          \<longrightarrow> kvCache h options f fnOptions = Inl (TypeError key_msg))"
proof -
  have k: "keyGenerator_of h f (Object_assign options fnOptions) = JStr []"
    using assms by (simp add: keyGenerator_of_def js_or_def)
  have a: "\<exists>m. kvCache h options f fnOptions = Inl (TypeError m)"
    using k by (auto simp: kvCache_def Let_def assert_def)
  have b: "typeof (binding_of (Object_assign options fnOptions)) = ''string''
          \<longrightarrow> kvCache h options f fnOptions = Inl (TypeError key_msg)"
    using k prefix_of_string[of "Object_assign options fnOptions"]
      binding_of_nonempty[of "Object_assign options fnOptions"]
    by (simp add: kvCache_def Let_def assert_def)
  from k a b show ?thesis by blast
qed

text \<open>\<^verbatim>\<open>CloudflareKVCache({ ttl: 60 })(() => 1)\<close> throws the key assertion's error.\<close>

theorem kvCache_anonymous_no_key_witness:
  "fun_name example_host 0 = []
   \<and> get_prop (Object_assign [''ttl'' \<mapsto> JNum (Finite 60)] Map.empty) ''key'' = Undefined
   \<and> typeof (binding_of (Object_assign [''ttl'' \<mapsto> JNum (Finite 60)] Map.empty)) = ''string''
   \<and> kvCache example_host [''ttl'' \<mapsto> JNum (Finite 60)] 0 Map.empty = Inl (TypeError key_msg)"
proof -
  have a: "fun_name example_host 0 = []"
    by (simp add: example_host_def)
  have b: "get_prop (Object_assign [''ttl'' \<mapsto> JNum (Finite 60)] Map.empty) ''key'' = Undefined"
    by (simp add: Object_assign_def get_prop_def)
  have c: "typeof (binding_of (Object_assign [''ttl'' \<mapsto> JNum (Finite 60)] Map.empty)) = ''string''"
    by (simp add: Object_assign_def get_prop_def binding_of_def js_or_def)
  from a b c kvCache_anonymous_no_key[OF a b] show ?thesis by simp
qed

section \<open>Frame lemmas\<close>

lemma computeKey_frame:
  "stores (snd (computeKey h c args s)) = stores s
   \<and> runtimeCache (snd (computeKey h c args s)) = runtimeCache s
   \<and> env (snd (computeKey h c args s)) = env s
   \<and> import_throws (snd (computeKey h c args s)) = import_throws s
   \<and> (trace (snd (computeKey h c args s)) = trace s
      \<or> trace (snd (computeKey h c args s)) = trace s @ [EvKeyFn args])"
  by (cases "keyGenerator c")
     (auto simp: computeKey_def Let_def record_event_def assert_def split: sum.splits)

lemma computeKey_state_independent:
  "fst (computeKey h c args s) = fst (computeKey h c args s')"
  by (cases "keyGenerator c")
     (auto simp: computeKey_def Let_def assert_def split: sum.splits)

lemma computeKey_fn_calls:
  "fn_calls (trace (snd (computeKey h c args s))) = fn_calls (trace s)"
  using computeKey_frame[of h c args s] by (auto simp: fn_calls_def)

lemma resolveKV_frame:
  "stores (snd (resolveKV c s)) = stores s
   \<and> env (snd (resolveKV c s)) = env s
   \<and> import_throws (snd (resolveKV c s)) = import_throws s
   \<and> fn_calls (trace (snd (resolveKV c s))) = fn_calls (trace s)"
  by (auto simp: resolveKV_def import_workers_def record_event_def Let_def fn_calls_def
      split: option.splits)

lemma resolveKV_ok:
  assumes "runtimeCache s = None \<longrightarrow> import_throws s = None"
    and "env s (binding c) = Some KV"
    and "has_get KV \<and> has_put KV \<and> has_delete KV"
  shows "fst (resolveKV c s) = Inr KV \<and> runtimeCache (snd (resolveKV c s)) \<noteq> None"
  using assms
  by (auto simp: resolveKV_def import_workers_def record_event_def Let_def check_KV_def assert_def
      split: option.splits)

section \<open>The default strategies\<close>

lemma fst_kv_get:
  "fst (kv_get KV key W) =
     (case get_throws (W (ns KV)) key of Some e \<Rightarrow> Inl e | None \<Rightarrow> Inr (data (W (ns KV)) key))"
  by (simp add: kv_get_def Let_def split: option.splits)

lemma defaultGet_returns: "\<exists>v W'. defaultGet h KV key W = (Inr v, W')"
  by (auto simp: defaultGet_def split: prod.splits sum.splits option.splits)

lemma defaultSet_returns: "\<exists>W'. defaultSet h KV key val t W = (Inr Undefined, W')"
  by (auto simp: defaultSet_def split: prod.splits sum.splits option.splits)

text \<open>
  Claim C7. The default get strategy never raises, whatever the key: when the store
  reports absence, when the store's read throws, and when the stored text does not
  parse as JSON, it returns \<^verbatim>\<open>undefined\<close>, the absence sentinel.
\<close>

theorem defaultGet_never_raises:
  "(\<exists>v. fst (defaultGet h KV key W) = Inr v)
   \<and> (get_throws (W (ns KV)) key = None \<and> data (W (ns KV)) key = None
        \<longrightarrow> fst (defaultGet h KV key W) = Inr Undefined)
   \<and> (get_throws (W (ns KV)) key \<noteq> None
        \<longrightarrow> fst (defaultGet h KV key W) = Inr Undefined)
   \<and> (\<forall>tx e. get_throws (W (ns KV)) key = None \<and> data (W (ns KV)) key = Some tx
          \<and> JSON_parse h tx = Inl e
        \<longrightarrow> fst (defaultGet h KV key W) = Inr Undefined)"
proof (intro conjI impI allI)
  show "\<exists>v. fst (defaultGet h KV key W) = Inr v"
    using defaultGet_returns[of h KV key W] by auto
next
  assume "get_throws (W (ns KV)) key = None \<and> data (W (ns KV)) key = None"
  then show "fst (defaultGet h KV key W) = Inr Undefined"
    by (simp add: defaultGet_def kv_get_def Let_def)
next
  assume "get_throws (W (ns KV)) key \<noteq> None"
  then show "fst (defaultGet h KV key W) = Inr Undefined"
    by (auto simp: defaultGet_def kv_get_def Let_def)
next
  fix tx e
  assume "get_throws (W (ns KV)) key = None \<and> data (W (ns KV)) key = Some tx
          \<and> JSON_parse h tx = Inl e"
  then show "fst (defaultGet h KV key W) = Inr Undefined"
    by (simp add: defaultGet_def kv_get_def Let_def)
qed

theorem defaultGet_never_raises_witness:
  "fst (defaultGet example_host fakeKV_object ''bad'' (\<lambda>n. createFakeKV)) = Inr Undefined
   \<and> fst (defaultGet example_host fakeKV_object ''err''
            (\<lambda>n. createFakeKV\<lparr>get_throws := (\<lambda>key. Some (Thrown (JStr ''boom'')))\<rparr>)) = Inr Undefined
   \<and> fst (defaultGet example_host fakeKV_object ''bad''
            (\<lambda>n. createFakeKV\<lparr>data := [''bad'' \<mapsto> ''not-json'']\<rparr>)) = Inr Undefined"
  using defaultGet_never_raises[of example_host fakeKV_object "''bad''" "\<lambda>n. createFakeKV"]
    defaultGet_never_raises[of example_host fakeKV_object "''err''"
       "\<lambda>n. createFakeKV\<lparr>get_throws := (\<lambda>key. Some (Thrown (JStr ''boom'')))\<rparr>"]
    defaultGet_never_raises[of example_host fakeKV_object "''bad''"
       "\<lambda>n. createFakeKV\<lparr>data := [''bad'' \<mapsto> ''not-json'']\<rparr>"]
  by (simp add: createFakeKV_def example_host_def example_parse_def)

section \<open>Bypass and skipped writes\<close>

lemma computeKey_bypass:
  assumes "keyGenerator c = JFun g" "fun_apply h g (JFun (fn c)) args = Inr (JBool False)"
  shows "computeKey h c args s = (Inr Bypass, record_event (EvKeyFn args) s)"
  using assms by (simp add: computeKey_def Let_def)

text \<open>
  Claim C4. When the key function returns \<^verbatim>\<open>false\<close> for the arguments of a call, the
  call invokes the wrapped function with those arguments and returns what it returns
  (or throws what it throws), and nothing of the store is touched: the stores with
  their logs of \<^verbatim>\<open>get\<close>, \<^verbatim>\<open>put\<close> and \<^verbatim>\<open>delete\<close> calls are as before, and no import
  and no read of \<^verbatim>\<open>env[binding]\<close> takes place (the trace gains the call of the key
  function and the call of the wrapped function, nothing else).
\<close>

theorem cache_bypass:
  assumes "keyGenerator c = JFun g"
    and "fun_apply h g (JFun (fn c)) args = Inr (JBool False)"
  shows "fst (cache h c this args s) = fun_apply h (fn c) this args
     \<and> stores (snd (cache h c this args s)) = stores s
     \<and> runtimeCache (snd (cache h c this args s)) = runtimeCache s
     \<and> env (snd (cache h c this args s)) = env s
     \<and> trace (snd (cache h c this args s)) = trace s @ [EvKeyFn args, EvFn this args]"
  by (simp add: cache_def computeKey_bypass[OF assms] call_fn_def record_event_def)

theorem cache_bypass_witness:
  "fst (cache example_host (fixed_config\<lparr>keyGenerator := JFun 2\<rparr>) Undefined [JNum (Finite 1)] fresh_state)
      = Inr (JNum (Finite 1))
   \<and> stores (snd (cache example_host (fixed_config\<lparr>keyGenerator := JFun 2\<rparr>) Undefined [JNum (Finite 1)] fresh_state))
      = stores fresh_state
   \<and> trace (snd (cache example_host (fixed_config\<lparr>keyGenerator := JFun 2\<rparr>) Undefined [JNum (Finite 1)] fresh_state))
      = [EvKeyFn [JNum (Finite 1)], EvFn Undefined [JNum (Finite 1)]]"
  using cache_bypass[of "fixed_config\<lparr>keyGenerator := JFun 2\<rparr>" 2 example_host "[JNum (Finite 1)]"
      Undefined fresh_state]
  by (simp add: fixed_config_def example_host_def fresh_state_def)

lemma set_op_skip:
  assumes "last_arg argsAndValue = Undefined
           \<or> fst (computeKey h c (butlast argsAndValue) s) = Inr Bypass"
  shows "snd (set_op h c argsAndValue s) = snd (computeKey h c (butlast argsAndValue) s)"
  using assms
  by (cases "computeKey h c (butlast argsAndValue) s")
     (auto simp: set_op_def Let_def split: sum.splits)

text \<open>
  Claim C8. \<^verbatim>\<open>set\<close> called with \<^verbatim>\<open>undefined\<close> as its last argument (or with no argument
  at all), and \<^verbatim>\<open>set\<close> called with arguments for which key derivation bypasses, does
  not interact with the store: the stores and their call logs are unchanged, there is
  no import and no read of \<^verbatim>\<open>env[binding]\<close>; at most the key function is called.
\<close>

theorem set_op_no_store_interaction:
  assumes "last_arg argsAndValue = Undefined
           \<or> fst (computeKey h c (butlast argsAndValue) s) = Inr Bypass"
  shows "stores (snd (set_op h c argsAndValue s)) = stores s
     \<and> runtimeCache (snd (set_op h c argsAndValue s)) = runtimeCache s
     \<and> env (snd (set_op h c argsAndValue s)) = env s
     \<and> (trace (snd (set_op h c argsAndValue s)) = trace s
        \<or> trace (snd (set_op h c argsAndValue s)) = trace s @ [EvKeyFn (butlast argsAndValue)])"
  using computeKey_frame[of h c "butlast argsAndValue" s]
  by (simp only: set_op_skip[OF assms])

theorem set_op_no_store_interaction_witness:
  "last_arg [Undefined] = Undefined
   \<and> stores (snd (set_op example_host fixed_config [Undefined] fresh_state)) = stores fresh_state
   \<and> runtimeCache (snd (set_op example_host fixed_config [Undefined] fresh_state)) = None
   \<and> fst (computeKey example_host (fixed_config\<lparr>keyGenerator := JFun 2\<rparr>)
            (butlast [JStr ''anything'', JNum (Finite 1)]) fresh_state) = Inr Bypass
   \<and> stores (snd (set_op example_host (fixed_config\<lparr>keyGenerator := JFun 2\<rparr>)
                                [JStr ''anything'', JNum (Finite 1)] fresh_state)) = stores fresh_state"
proof -
  have a: "last_arg [Undefined] = Undefined"
    by (simp add: last_arg_def)
  have b: "fst (computeKey example_host (fixed_config\<lparr>keyGenerator := JFun 2\<rparr>)
            (butlast [JStr ''anything'', JNum (Finite 1)]) fresh_state) = Inr Bypass"
    by (simp add: computeKey_def fixed_config_def example_host_def Let_def)
  have c: "runtimeCache fresh_state = None"
    by (simp add: fresh_state_def)
  from a b c
    set_op_no_store_interaction[of "[Undefined]" example_host fixed_config fresh_state]
    set_op_no_store_interaction[of "[JStr ''anything'', JNum (Finite 1)]" example_host
       "fixed_config\<lparr>keyGenerator := JFun 2\<rparr>" fresh_state]
  show ?thesis by simp
qed

section \<open>Cache hits\<close>

lemma call_getter_default_hit:
  assumes "getter c = Default"
    and "get_throws (stores s (ns KV)) k = None"
    and "data (stores s (ns KV)) k = Some tx"
    and "JSON_parse h tx = Inr v"
  shows "call_getter h c KV k s =
     (Inr v, s\<lparr>stores := (stores s)(ns KV := (stores s (ns KV))\<lparr>getCalls := getCalls (stores s (ns KV)) @ [k]\<rparr>)\<rparr>)"
  using assms by (simp add: call_getter_def defaultGet_def kv_get_def Let_def)

text \<open>Whatever the get strategy: when it reports a value other than \<^verbatim>\<open>undefined\<close>, the
  call returns that value and the wrapped function is not invoked.\<close>

lemma cache_hit_any_strategy:
  assumes "computeKey h c args s = (Inr (Key k), s1)"
    and "resolveKV c s1 = (Inr KV, s2)"
    and "call_getter h c KV k s2 = (Inr v, s3)"
    and "v \<noteq> Undefined"
  shows "cache h c this args s = (Inr v, s3)"
    and "fn_calls (trace s3) = fn_calls (trace s)"
proof -
  show "cache h c this args s = (Inr v, s3)"
    using assms by (simp add: cache_def)
  have "trace s3 = trace s2"
    using assms(3) by (auto simp: call_getter_def split: prod.splits)
  then show "fn_calls (trace s3) = fn_calls (trace s)"
    using resolveKV_frame[of c s1] computeKey_fn_calls[of h c args s] assms(1,2) by simp
qed

lemma cache_hit_step:
  assumes g: "getter c = Default"
    and k: "fst (computeKey h c args s) = Inr (Key k)"
    and i: "runtimeCache s = None \<longrightarrow> import_throws s = None"
    and e: "env s (binding c) = Some KV"
    and caps: "has_get KV \<and> has_put KV \<and> has_delete KV"
    and t: "get_throws (stores s (ns KV)) k = None"
    and d: "data (stores s (ns KV)) k = Some tx"
    and p: "JSON_parse h tx = Inr v"
    and v: "v \<noteq> Undefined"
  shows "fst (cache h c this args s) = Inr v"
    and "fn_calls (trace (snd (cache h c this args s))) = fn_calls (trace s)"
    and "runtimeCache (snd (cache h c this args s)) \<noteq> None"
    and "env (snd (cache h c this args s)) = env s"
    and "get_throws (stores (snd (cache h c this args s)) (ns KV)) k = None"
    and "data (stores (snd (cache h c this args s)) (ns KV)) k = Some tx"
proof -
  obtain s1 where s1: "computeKey h c args s = (Inr (Key k), s1)"
    using k by (cases "computeKey h c args s") simp
  have f1: "stores s1 = stores s" "runtimeCache s1 = runtimeCache s" "env s1 = env s"
    "import_throws s1 = import_throws s" "fn_calls (trace s1) = fn_calls (trace s)"
    using computeKey_frame[of h c args s] computeKey_fn_calls[of h c args s] s1 by simp_all
  obtain s2 where s2: "resolveKV c s1 = (Inr KV, s2)"
    using resolveKV_ok[of s1 c KV] i e caps f1 by (cases "resolveKV c s1") simp
  have f2: "stores s2 = stores s" "env s2 = env s" "fn_calls (trace s2) = fn_calls (trace s)"
    "runtimeCache s2 \<noteq> None"
    using resolveKV_frame[of c s1] resolveKV_ok[of s1 c KV] i e caps f1 s2 by simp_all
  have s3: "call_getter h c KV k s2 =
     (Inr v, s2\<lparr>stores := (stores s2)(ns KV := (stores s2 (ns KV))\<lparr>getCalls := getCalls (stores s2 (ns KV)) @ [k]\<rparr>)\<rparr>)"
    using call_getter_default_hit[of c s2 KV k tx h v] g t d p f2 by simp
  have c: "cache h c this args s =
     (Inr v, s2\<lparr>stores := (stores s2)(ns KV := (stores s2 (ns KV))\<lparr>getCalls := getCalls (stores s2 (ns KV)) @ [k]\<rparr>)\<rparr>)"
    using s1 s2 s3 v by (simp add: cache_def)
  show "fst (cache h c this args s) = Inr v" using c by simp
  show "fn_calls (trace (snd (cache h c this args s))) = fn_calls (trace s)" using c f2 by simp
  show "runtimeCache (snd (cache h c this args s)) \<noteq> None" using c f2 by simp
  show "env (snd (cache h c this args s)) = env s" using c f2 by simp
  show "get_throws (stores (snd (cache h c this args s)) (ns KV)) k = None" using c f2 t by simp
  show "data (stores (snd (cache h c this args s)) (ns KV)) k = Some tx" using c f2 d by simp
qed

text \<open>
  Claim C5. With the default get strategy, a call whose key is in the store with text
  that parses to a value returns that value and does not invoke the wrapped function;
  a second call with the same arguments is a hit again, so the two calls together do
  not invoke the wrapped function at all (hence at most once).
\<close>

theorem cache_hit:
  assumes "getter c = Default"
    and "fst (computeKey h c args s) = Inr (Key k)"
    and "runtimeCache s = None \<longrightarrow> import_throws s = None"
    and "env s (binding c) = Some KV"
    and "has_get KV \<and> has_put KV \<and> has_delete KV"
    and "get_throws (stores s (ns KV)) k = None"
    and "data (stores s (ns KV)) k = Some tx"
    and "JSON_parse h tx = Inr v"
    and "v \<noteq> Undefined"
  shows "fst (cache h c this args s) = Inr v
     \<and> fn_calls (trace (snd (cache h c this args s))) = fn_calls (trace s)
     \<and> fst (cache h c this args (snd (cache h c this args s))) = Inr v
     \<and> fn_calls (trace (snd (cache h c this args (snd (cache h c this args s))))) = fn_calls (trace s)"
proof -
  let ?s' = "snd (cache h c this args s)"
  note first = cache_hit_step[OF assms, of this]
  have k': "fst (computeKey h c args ?s') = Inr (Key k)"
    using computeKey_state_independent[of h c args ?s' s] assms(2) by simp
  have i': "runtimeCache ?s' = None \<longrightarrow> import_throws ?s' = None"
    using first(3) by blast
  have e': "env ?s' (binding c) = Some KV"
    using first(4) assms(4) by simp
  note second = cache_hit_step[OF assms(1) k' i' e' assms(5) first(5) first(6) assms(8) assms(9), of this]
  from first(1) first(2) second(1) second(2) show ?thesis by simp
qed


theorem cache_hit_witness:
  "fst (computeKey example_host fixed_config [] (fresh_state\<lparr>stores := (\<lambda>n. createFakeKV\<lparr>data := [''fixed'' \<mapsto> ''777'']\<rparr>)\<rparr>))
       = Inr (Key ''fixed'')
   \<and> JSON_parse example_host ''777'' = Inr (JNum (Finite 777))
   \<and> fst (cache example_host fixed_config Undefined []
            (fresh_state\<lparr>stores := (\<lambda>n. createFakeKV\<lparr>data := [''fixed'' \<mapsto> ''777'']\<rparr>)\<rparr>))
       = Inr (JNum (Finite 777))
   \<and> fn_calls (trace (snd (cache example_host fixed_config Undefined []
        (snd (cache example_host fixed_config Undefined []
            (fresh_state\<lparr>stores := (\<lambda>n. createFakeKV\<lparr>data := [''fixed'' \<mapsto> ''777'']\<rparr>)\<rparr>)))))) = []"
proof -
  let ?s = "fresh_state\<lparr>stores := (\<lambda>n. createFakeKV\<lparr>data := [''fixed'' \<mapsto> ''777'']\<rparr>)\<rparr>"
  have a: "getter fixed_config = Default"
    by (simp add: fixed_config_def)
  have b: "fst (computeKey example_host fixed_config [] ?s) = Inr (Key ''fixed'')"
    by (simp add: computeKey_def fixed_config_def)
  have c: "runtimeCache ?s = None \<longrightarrow> import_throws ?s = None"
    by (simp add: fresh_state_def)
  have d: "env ?s (binding fixed_config) = Some fakeKV_object"
    by (simp add: fresh_state_def fixed_config_def)
  have e: "has_get fakeKV_object \<and> has_put fakeKV_object \<and> has_delete fakeKV_object"
    by (simp add: fakeKV_object_def)
  have f: "get_throws (stores ?s (ns fakeKV_object)) ''fixed'' = None"
    by (simp add: createFakeKV_def)
  have g: "data (stores ?s (ns fakeKV_object)) ''fixed'' = Some ''777''"
    by simp
  have h: "JSON_parse example_host ''777'' = Inr (JNum (Finite 777))"
    by (simp add: example_host_def example_parse_def)
  have i: "JNum (Finite 777) \<noteq> Undefined"
    by simp
  have j: "fn_calls (trace ?s) = []"
    by (simp add: fresh_state_def fn_calls_def)
  from b h j cache_hit[OF a b c d e f g h i, of Undefined] show ?thesis by simp
qed

section \<open>Round trip through the store\<close>

lemma call_setter_default_put:
  assumes "setter c = Default"
    and "val \<noteq> Undefined"
    and "JSON_stringify h val = Inr (Some tx)"
    and "put_throws (stores s (ns KV)) k = None"
  shows "call_setter h c KV k val t s =
     (Inr Undefined,
      s\<lparr>stores := (stores s)(ns KV := (stores s (ns KV))
            \<lparr>putCalls := putCalls (stores s (ns KV)) @ [(k, Some tx, Math_floor t)],
             data := (data (stores s (ns KV)))(k \<mapsto> tx)\<rparr>)\<rparr>)"
  using assms by (simp add: call_setter_def defaultSet_def kv_put_def Let_def)

lemma call_setter_default_returns:
  assumes "setter c = Default"
  shows "\<exists>s'. call_setter h c KV k val t s = (Inr Undefined, s')"
  using assms defaultSet_returns[of h KV k val t "stores s"]
  by (auto simp: call_setter_def)

text \<open>
  Claim C6. With the default strategies, for a value \<open>v\<close> other than \<^verbatim>\<open>undefined\<close> that
  JSON serializes to text which parses back to \<open>v\<close>, for arguments whose key derivation
  gives a key, and on a store that is bound, has the three capabilities and does not
  fail at that key, \<^verbatim>\<open>set(...args, v)\<close> followed by \<^verbatim>\<open>get(...args)\<close> returns \<open>v\<close>.
\<close>

theorem set_get_roundtrip:
  assumes gs: "getter c = Default" "setter c = Default"
    and v: "v \<noteq> Undefined"
    and ser: "JSON_stringify h v = Inr (Some tx)" "JSON_parse h tx = Inr v"
    and k: "fst (computeKey h c args s) = Inr (Key k)"
    and i: "runtimeCache s = None \<longrightarrow> import_throws s = None"
    and e: "env s (binding c) = Some KV"
    and caps: "has_get KV \<and> has_put KV \<and> has_delete KV"
    and faithful: "put_throws (stores s (ns KV)) k = None" "get_throws (stores s (ns KV)) k = None"
  shows "fst (get_op h c args (snd (set_op h c (args @ [v]) s))) = Inr v"
proof -
  obtain s1 where s1: "computeKey h c args s = (Inr (Key k), s1)"
    using k by (cases "computeKey h c args s") simp
  have f1: "stores s1 = stores s" "runtimeCache s1 = runtimeCache s" "env s1 = env s"
    "import_throws s1 = import_throws s"
    using computeKey_frame[of h c args s] s1 by simp_all
  obtain s2 where s2: "resolveKV c s1 = (Inr KV, s2)"
    using resolveKV_ok[of s1 c KV] i e caps f1 by (cases "resolveKV c s1") simp
  have f2: "stores s2 = stores s" "env s2 = env s" "runtimeCache s2 \<noteq> None"
    using resolveKV_frame[of c s1] resolveKV_ok[of s1 c KV] i e caps f1 s2 by simp_all
  let ?s3 = "s2\<lparr>stores := (stores s2)(ns KV := (stores s2 (ns KV))
            \<lparr>putCalls := putCalls (stores s2 (ns KV)) @ [(k, Some tx, Math_floor (ttl c))],
             data := (data (stores s2 (ns KV)))(k \<mapsto> tx)\<rparr>)\<rparr>"
  have s3: "call_setter h c KV k v (ttl c) s2 = (Inr Undefined, ?s3)"
    using call_setter_default_put[of c v h tx s2 KV k "ttl c"] gs v ser faithful f2 by simp
  have set: "set_op h c (args @ [v]) s = (Inr Undefined, ?s3)"
    using s1 s2 s3 v by (simp add: set_op_def last_arg_def Let_def)
  obtain s4 where s4: "computeKey h c args ?s3 = (Inr (Key k), s4)"
    using k computeKey_state_independent[of h c args ?s3 s]
    by (cases "computeKey h c args ?s3") simp
  have f4: "stores s4 = stores ?s3" "runtimeCache s4 = runtimeCache ?s3" "env s4 = env ?s3"
    using computeKey_frame[of h c args ?s3] s4 by simp_all
  have i4: "runtimeCache s4 = None \<longrightarrow> import_throws s4 = None"
    using f4(2) f2(3) by auto
  have e4: "env s4 (binding c) = Some KV"
    using f4 f2 e by simp
  obtain s5 where s5: "resolveKV c s4 = (Inr KV, s5)"
    using resolveKV_ok[OF i4 e4 caps] by (cases "resolveKV c s4") simp
  have f5: "stores s5 = stores ?s3"
    using resolveKV_frame[of c s4] s5 f4 by simp
  have t5: "get_throws (stores s5 (ns KV)) k = None"
    using f5 f2 faithful by simp
  have d5: "data (stores s5 (ns KV)) k = Some tx"
    using f5 by simp
  have "fst (call_getter h c KV k s5) = Inr v"
    using call_getter_default_hit[OF gs(1) t5 d5 ser(2)] by simp
  then have "fst (get_op h c args ?s3) = Inr v"
    using s4 s5 by (simp add: get_op_def)
  then show ?thesis using set by simp
qed

theorem set_get_roundtrip_witness:
  "JSON_stringify example_host (JNum (Finite 777)) = Inr (Some ''777'')
   \<and> JSON_parse example_host ''777'' = Inr (JNum (Finite 777))
   \<and> fst (computeKey example_host fixed_config [] fresh_state) = Inr (Key ''fixed'')
   \<and> fst (get_op example_host fixed_config []
        (snd (set_op example_host fixed_config ([] @ [JNum (Finite 777)]) fresh_state)))
      = Inr (JNum (Finite 777))"
proof -
  have a: "getter fixed_config = Default" "setter fixed_config = Default"
    by (simp_all add: fixed_config_def)
  have b: "JNum (Finite 777) \<noteq> Undefined"
    by simp
  have c: "JSON_stringify example_host (JNum (Finite 777)) = Inr (Some ''777'')"
    by (simp add: example_host_def example_stringify_def)
  have d: "JSON_parse example_host ''777'' = Inr (JNum (Finite 777))"
    by (simp add: example_host_def example_parse_def)
  have e: "fst (computeKey example_host fixed_config [] fresh_state) = Inr (Key ''fixed'')"
    by (simp add: computeKey_def fixed_config_def)
  have f: "runtimeCache fresh_state = None \<longrightarrow> import_throws fresh_state = None"
    by (simp add: fresh_state_def)
  have g: "env fresh_state (binding fixed_config) = Some fakeKV_object"
    by (simp add: fresh_state_def fixed_config_def)
  have h: "has_get fakeKV_object \<and> has_put fakeKV_object \<and> has_delete fakeKV_object"
    by (simp add: fakeKV_object_def)
  have i: "put_throws (stores fresh_state (ns fakeKV_object)) ''fixed'' = None"
    "get_throws (stores fresh_state (ns fakeKV_object)) ''fixed'' = None"
    by (simp_all add: fresh_state_def createFakeKV_def)
  from c d e set_get_roundtrip[OF a b c d e f g h i] show ?thesis by simp
qed


section \<open>Cache misses and the set strategy\<close>


text \<open>
  Against claim C2 as stated: with a user-supplied set strategy that throws, a call
  that misses the cache rejects with what the strategy threw, although the wrapped
  function returned \<open>1\<close>.
\<close>

theorem cache_miss_custom_setter_counterexample:
  "fst (cache example_host (fixed_config\<lparr>setter := Custom 3\<rparr>) Undefined [] fresh_state)
     = Inl (Thrown (JStr ''boom''))"
  by (simp add: cache_def computeKey_def resolveKV_def import_workers_def check_KV_def assert_def
      call_getter_def call_setter_def call_fn_def defaultGet_def kv_get_def record_event_def Let_def
      fixed_config_def fresh_state_def example_host_def createFakeKV_def fakeKV_object_def)

text \<open>
  Claim C2, amended. On a call that misses the cache and whose wrapped function
  returns \<open>r\<close>: with the default set strategy the call returns \<open>r\<close>, whatever
  \<^verbatim>\<open>JSON.stringify\<close> and the store's write do; with a user-supplied set strategy the
  call returns \<open>r\<close> when the strategy returns, and rejects with the strategy's error when
  it throws.
\<close>

theorem cache_miss_result:
  assumes "computeKey h c args s = (Inr (Key k), s1)"
    and "resolveKV c s1 = (Inr KV, s2)"
    and "call_getter h c KV k s2 = (Inr Undefined, s3)"
    and "fun_apply h (fn c) this args = Inr r"
  shows "(setter c = Default \<longrightarrow> fst (cache h c this args s) = Inr r)
     \<and> (\<forall>g. setter c = Custom g \<longrightarrow>
          fst (cache h c this args s) =
            (case fst (setter_apply h g KV k r (ttl c) (stores s3)) of
               Inl e \<Rightarrow> Inl e
             | Inr u \<Rightarrow> Inr r))"
proof (intro conjI impI allI)
  assume d: "setter c = Default"
  obtain s' where "call_setter h c KV k r (ttl c) (record_event (EvFn this args) s3) = (Inr Undefined, s')"
    using call_setter_default_returns[OF d] by blast
  then show "fst (cache h c this args s) = Inr r"
    using assms by (simp add: cache_def call_fn_def)
next
  fix g assume "setter c = Custom g"
  then show "fst (cache h c this args s) =
            (case fst (setter_apply h g KV k r (ttl c) (stores s3)) of
               Inl e \<Rightarrow> Inl e
             | Inr u \<Rightarrow> Inr r)"
    using assms
    by (simp add: cache_def call_fn_def call_setter_def record_event_def split: prod.splits sum.splits)
qed

theorem cache_miss_result_witness:
  "fst (cache example_host fixed_config Undefined []
          (fresh_state\<lparr>stores := (\<lambda>n. createFakeKV\<lparr>put_throws := (\<lambda>key. Some (Thrown (JStr ''boom'')))\<rparr>)\<rparr>))
     = Inr (JNum (Finite 1))
   \<and> fst (cache example_host (fixed_config\<lparr>setter := Custom 3\<rparr>) Undefined [] fresh_state)
     = Inl (Thrown (JStr ''boom''))"
proof -
  let ?s = "fresh_state\<lparr>stores := (\<lambda>n. createFakeKV\<lparr>put_throws := (\<lambda>key. Some (Thrown (JStr ''boom'')))\<rparr>)\<rparr>"
  let ?c = "fixed_config\<lparr>setter := Custom 3\<rparr>"
  have a: "computeKey example_host fixed_config [] ?s = (Inr (Key ''fixed''), ?s)"
    by (simp add: computeKey_def fixed_config_def)
  have b: "resolveKV fixed_config ?s = (Inr fakeKV_object, snd (resolveKV fixed_config ?s))"
    by (simp add: resolveKV_def import_workers_def check_KV_def assert_def record_event_def Let_def
        fixed_config_def fresh_state_def fakeKV_object_def)
  have c: "call_getter example_host fixed_config fakeKV_object ''fixed'' (snd (resolveKV fixed_config ?s))
      = (Inr Undefined, snd (call_getter example_host fixed_config fakeKV_object ''fixed''
            (snd (resolveKV fixed_config ?s))))"
    by (simp add: call_getter_def defaultGet_def kv_get_def resolveKV_def import_workers_def record_event_def
        Let_def fixed_config_def fresh_state_def createFakeKV_def)
  have d: "fun_apply example_host (fn fixed_config) Undefined [] = Inr (JNum (Finite 1))"
    by (simp add: example_host_def fixed_config_def)
  have e: "setter fixed_config = Default"
    by (simp add: fixed_config_def)
  have a': "computeKey example_host ?c [] fresh_state = (Inr (Key ''fixed''), fresh_state)"
    by (simp add: computeKey_def fixed_config_def)
  have b': "resolveKV ?c fresh_state = (Inr fakeKV_object, snd (resolveKV ?c fresh_state))"
    by (simp add: resolveKV_def import_workers_def check_KV_def assert_def record_event_def Let_def
        fixed_config_def fresh_state_def fakeKV_object_def)
  have c': "call_getter example_host ?c fakeKV_object ''fixed'' (snd (resolveKV ?c fresh_state))
      = (Inr Undefined, snd (call_getter example_host ?c fakeKV_object ''fixed''
            (snd (resolveKV ?c fresh_state))))"
    by (simp add: call_getter_def defaultGet_def kv_get_def resolveKV_def import_workers_def record_event_def
        Let_def fixed_config_def fresh_state_def createFakeKV_def)
  have d': "fun_apply example_host (fn ?c) Undefined [] = Inr (JNum (Finite 1))"
    by (simp add: example_host_def fixed_config_def)
  have e': "setter ?c = Custom 3"
    by simp
  have f': "setter_apply example_host 3 = (\<lambda>KV key val t W. (Inl (Thrown (JStr ''boom'')), W))"
    by (simp add: example_host_def)
  from e cache_miss_result[OF a b c d] e' f' cache_miss_result[OF a' b' c' d']
  show ?thesis by simp
qed


section \<open>Resolution of the store\<close>



lemma inv_record_event: "e \<noteq> EvImport \<Longrightarrow> import_inv (record_event e s) = import_inv s"
  by (simp add: import_inv_def record_event_def import_count_def)

lemma inv_stores: "import_inv (s\<lparr>stores := W\<rparr>) = import_inv s"
  by (simp add: import_inv_def)

lemma inv_computeKey: "import_inv s \<Longrightarrow> import_inv (snd (computeKey h c args s))"
  using computeKey_frame[of h c args s]
  by (auto simp: import_inv_def import_count_def)

lemma inv_resolveKV: "import_inv s \<Longrightarrow> import_inv (snd (resolveKV c s))"
  by (auto simp: resolveKV_def import_workers_def record_event_def Let_def import_inv_def import_count_def
      split: option.splits)

lemma inv_call_fn: "import_inv s \<Longrightarrow> import_inv (snd (call_fn h c this args s))"
  by (simp add: call_fn_def inv_record_event)

lemma inv_call_getter: "import_inv s \<Longrightarrow> import_inv (snd (call_getter h c KV k s))"
  by (simp add: call_getter_def inv_stores split: prod.splits)

lemma inv_call_setter: "import_inv s \<Longrightarrow> import_inv (snd (call_setter h c KV k v t s))"
  by (simp add: call_setter_def inv_stores split: prod.splits)

lemma inv_computeKey_eq: "computeKey h c args s = (r, s1) \<Longrightarrow> import_inv s \<Longrightarrow> import_inv s1"
  using inv_computeKey[of s h c args] by simp

lemma inv_resolveKV_eq: "resolveKV c s = (r, s1) \<Longrightarrow> import_inv s \<Longrightarrow> import_inv s1"
  using inv_resolveKV[of s c] by simp

lemma inv_call_fn_eq: "call_fn h c this args s = (r, s1) \<Longrightarrow> import_inv s \<Longrightarrow> import_inv s1"
  using inv_call_fn[of s h c this args] by simp

lemma inv_call_getter_eq: "call_getter h c KV k s = (r, s1) \<Longrightarrow> import_inv s \<Longrightarrow> import_inv s1"
  using inv_call_getter[of s h c KV k] by simp

lemma inv_call_setter_eq: "call_setter h c KV k v t s = (r, s1) \<Longrightarrow> import_inv s \<Longrightarrow> import_inv s1"
  using inv_call_setter[of s h c KV k v t] by simp

lemma inv_cache:
  assumes "import_inv s"
  shows "import_inv (snd (cache h c this args s))"
proof -
  obtain r1 s1 where 1: "computeKey h c args s = (r1, s1)" by (cases "computeKey h c args s")
  obtain rf sf where f: "call_fn h c this args s1 = (rf, sf)" by (cases "call_fn h c this args s1")
  obtain r2 s2 where 2: "resolveKV c s1 = (r2, s2)" by (cases "resolveKV c s1")
  have i1: "import_inv s1" using 1 assms by (rule inv_computeKey_eq)
  have "if": "import_inv sf" using f i1 by (rule inv_call_fn_eq)
  have i2: "import_inv s2" using 2 i1 by (rule inv_resolveKV_eq)
  show ?thesis
  proof (cases r1)
    case (Inl e)
    then show ?thesis using 1 i1 by (simp add: cache_def)
  next
    case (Inr ck)
    show ?thesis
    proof (cases ck)
      case Bypass
      then show ?thesis using 1 Inr f "if" by (simp add: cache_def)
    next
      case (Key k)
      show ?thesis
      proof (cases r2)
        case (Inl e)
        then show ?thesis using 1 \<open>r1 = Inr ck\<close> Key 2 i2 by (simp add: cache_def)
      next
        case (Inr KV)
        obtain r3 s3 where 3: "call_getter h c KV k s2 = (r3, s3)"
          by (cases "call_getter h c KV k s2")
        obtain r4 s4 where 4: "call_fn h c this args s3 = (r4, s4)"
          by (cases "call_fn h c this args s3")
        have i3: "import_inv s3" using 3 i2 by (rule inv_call_getter_eq)
        have i4: "import_inv s4" using 4 i3 by (rule inv_call_fn_eq)
        have i5: "\<And>v. import_inv (snd (call_setter h c KV k v (ttl c) s4))"
          using i4 by (rule inv_call_setter)
        show ?thesis
          using 1 \<open>r1 = Inr ck\<close> Key 2 Inr 3 4 i3 i4 i5
          by (simp add: cache_def split: sum.splits prod.splits) (metis snd_conv)
      qed
    qed
  qed
qed

lemma inv_raw: "import_inv s \<Longrightarrow> import_inv (snd (raw h c this args s))"
  by (simp add: raw_def inv_call_fn)

lemma inv_get_op:
  assumes "import_inv s"
  shows "import_inv (snd (get_op h c args s))"
proof -
  obtain r1 s1 where 1: "computeKey h c args s = (r1, s1)" by (cases "computeKey h c args s")
  obtain r2 s2 where 2: "resolveKV c s1 = (r2, s2)" by (cases "resolveKV c s1")
  have i1: "import_inv s1" using 1 assms by (rule inv_computeKey_eq)
  have i2: "import_inv s2" using 2 i1 by (rule inv_resolveKV_eq)
  have i3: "\<And>KV k. import_inv (snd (call_getter h c KV k s2))"
    using i2 by (rule inv_call_getter)
  show ?thesis
    using 1 2 i1 i2 i3
    by (simp add: get_op_def split: sum.splits cache_key.splits)
qed

lemma inv_set_op:
  assumes "import_inv s"
  shows "import_inv (snd (set_op h c argsAndValue s))"
proof -
  obtain r1 s1 where 1: "computeKey h c (butlast argsAndValue) s = (r1, s1)"
    by (cases "computeKey h c (butlast argsAndValue) s")
  obtain r2 s2 where 2: "resolveKV c s1 = (r2, s2)" by (cases "resolveKV c s1")
  have i1: "import_inv s1" using 1 assms by (rule inv_computeKey_eq)
  have i2: "import_inv s2" using 2 i1 by (rule inv_resolveKV_eq)
  have i3: "\<And>KV k v. import_inv (snd (call_setter h c KV k v (ttl c) s2))"
    using i2 by (rule inv_call_setter)
  show ?thesis
    using 1 2 i1 i2 i3
    by (simp add: set_op_def Let_def split: sum.splits cache_key.splits)
qed

lemma inv_clear_op:
  assumes "import_inv s"
  shows "import_inv (snd (clear_op h c args s))"
proof -
  obtain r1 s1 where 1: "computeKey h c args s = (r1, s1)" by (cases "computeKey h c args s")
  obtain r2 s2 where 2: "resolveKV c s1 = (r2, s2)" by (cases "resolveKV c s1")
  have i1: "import_inv s1" using 1 assms by (rule inv_computeKey_eq)
  have i2: "import_inv s2" using 2 i1 by (rule inv_resolveKV_eq)
  show ?thesis
    using 1 2 i1 i2
    by (simp add: clear_op_def inv_stores split: sum.splits cache_key.splits prod.splits)
qed

lemma inv_run_op: "import_inv s \<Longrightarrow> import_inv (snd (run_op h c x s))"
  by (cases x) (simp_all add: inv_cache inv_raw inv_get_op inv_set_op inv_clear_op)

lemma inv_run_ops: "import_inv s \<Longrightarrow> import_inv (run_ops h c xs s)"
  by (induction xs arbitrary: s) (simp_all add: inv_run_op)

lemma resolveKV_loaded:
  assumes "runtimeCache s \<noteq> None"
  shows "resolveKV c s = (check_KV (binding c) (env s (binding c)), record_event (EvEnvRead (binding c)) s)"
  using assms by (auto simp: resolveKV_def Let_def record_event_def)

text \<open>
  Claim C1, amended. What is memoized is the imported module, not the store handle:
  over any sequence of operations on a wrapped function that starts with the closure
  variable empty, the module is imported at most once; and once it is loaded, every
  resolution reads \<^verbatim>\<open>env[binding]\<close> and checks the capabilities again, without
  importing.
\<close>

theorem import_at_most_once:
  "(runtimeCache s = None \<and> import_count (trace s) = 0
      \<longrightarrow> import_count (trace (run_ops h c xs s)) \<le> 1)
   \<and> (runtimeCache s \<noteq> None
      \<longrightarrow> resolveKV c s
            = (check_KV (binding c) (env s (binding c)), record_event (EvEnvRead (binding c)) s))"
proof (intro conjI impI)
  assume "runtimeCache s = None \<and> import_count (trace s) = 0"
  then have "import_inv s" by (simp add: import_inv_def)
  then have "import_inv (run_ops h c xs s)" by (rule inv_run_ops)
  then show "import_count (trace (run_ops h c xs s)) \<le> 1"
    by (simp add: import_inv_def split: if_splits)
next
  assume "runtimeCache s \<noteq> None"
  then show "resolveKV c s
            = (check_KV (binding c) (env s (binding c)), record_event (EvEnvRead (binding c)) s)"
    by (rule resolveKV_loaded)
qed

lemma example_run:
  "run_ops example_host fixed_config [Get [], Set [JNum (Finite 1)]] fresh_state
    = fresh_state\<lparr>runtimeCache := Some CloudflareWorkers,
         stores := (\<lambda>n. createFakeKV)(0 := createFakeKV\<lparr>getCalls := [''fixed''],
             putCalls := [(''fixed'', Some ''1'', Finite 60)], data := [''fixed'' \<mapsto> ''1'']\<rparr>),
         trace := [EvImport, EvEnvRead ''KV'', EvEnvRead ''KV'']\<rparr>"
  by (simp add: get_op_def set_op_def last_arg_def computeKey_def resolveKV_def import_workers_def
      check_KV_def assert_def call_getter_def call_setter_def defaultGet_def defaultSet_def
      kv_get_def kv_put_def record_event_def Let_def fixed_config_def fresh_state_def example_host_def
      example_stringify_def createFakeKV_def fakeKV_object_def)

theorem import_at_most_once_witness:
  "runtimeCache fresh_state = None \<and> import_count (trace fresh_state) = 0
   \<and> import_count (trace (run_ops example_host fixed_config [Get [], Set [JNum (Finite 1)]]
         fresh_state)) \<le> 1
   \<and> runtimeCache (run_ops example_host fixed_config [Get [], Set [JNum (Finite 1)]] fresh_state)
        \<noteq> None
   \<and> fst (resolveKV fixed_config
        (run_ops example_host fixed_config [Get [], Set [JNum (Finite 1)]] fresh_state))
      = Inr fakeKV_object"
proof -
  let ?s = "run_ops example_host fixed_config [Get [], Set [JNum (Finite 1)]] fresh_state"
  have a: "runtimeCache fresh_state = None \<and> import_count (trace fresh_state) = 0"
    by (simp add: fresh_state_def import_count_def)
  have b: "runtimeCache ?s \<noteq> None"
    by (simp only: example_run) simp
  have c: "check_KV (binding fixed_config) (env ?s (binding fixed_config)) = Inr fakeKV_object"
    by (simp only: example_run)
       (simp add: check_KV_def assert_def fixed_config_def fresh_state_def fakeKV_object_def)
  from a b c
    import_at_most_once[of fresh_state example_host fixed_config
       "[Get [], Set [JNum (Finite 1)]]"]
    import_at_most_once[of ?s example_host fixed_config "[]"]
  show ?thesis by simp
qed

text \<open>
  Against claim C1 as stated: in the test \<^verbatim>\<open>resolveKV lazy loads only once\<close>
  (\<^verbatim>\<open>cache.get()\<close>, then \<^verbatim>\<open>cache.set(1)\<close>) the second operation reads \<^verbatim>\<open>env[binding]\<close>
  again; and when the binding is removed from \<^verbatim>\<open>env\<close> after the first operation has
  resolved the store, the second operation fails its capability check instead of
  reusing the handle.
\<close>

theorem resolveKV_again_counterexample:
  "trace (run_ops example_host fixed_config [Get [], Set [JNum (Finite 1)]] fresh_state)
     = [EvImport, EvEnvRead ''KV'', EvEnvRead ''KV'']
   \<and> fst (get_op example_host fixed_config [] fresh_state) = Inr Undefined
   \<and> fst (set_op example_host fixed_config [JNum (Finite 1)]
            ((snd (get_op example_host fixed_config [] fresh_state))\<lparr>env := Map.empty\<rparr>))
       = Inl (TypeError (kv_msg ''KV''))"
proof -
  have a: "trace (run_ops example_host fixed_config [Get [], Set [JNum (Finite 1)]] fresh_state)
     = [EvImport, EvEnvRead ''KV'', EvEnvRead ''KV'']"
    by (simp only: example_run) simp
  have b: "get_op example_host fixed_config [] fresh_state
     = (Inr Undefined,
        fresh_state\<lparr>runtimeCache := Some CloudflareWorkers,
          stores := (\<lambda>n. createFakeKV)(0 := createFakeKV\<lparr>getCalls := [''fixed'']\<rparr>),
          trace := [EvImport, EvEnvRead ''KV'']\<rparr>)"
    by (simp add: get_op_def computeKey_def resolveKV_def import_workers_def
      check_KV_def assert_def call_getter_def defaultGet_def
      kv_get_def record_event_def Let_def fixed_config_def fresh_state_def
      createFakeKV_def fakeKV_object_def)
  have c: "fst (set_op example_host fixed_config [JNum (Finite 1)]
            ((snd (get_op example_host fixed_config [] fresh_state))\<lparr>env := Map.empty\<rparr>))
       = Inl (TypeError (kv_msg ''KV''))"
    by (simp only: b)
       (simp add: set_op_def last_arg_def computeKey_def resolveKV_def check_KV_def
          record_event_def Let_def fixed_config_def fresh_state_def)
  from a b c show ?thesis by simp
qed

end
